theory Spec2Isabelle
  imports Complex_Main "HOL-Library.Word"
begin

unbundle bit_operations_syntax

section \<open>Bytes, errors and the library calls of \<open>embed_aiip_chunk\<close>\<close>

type_synonym byte = "8 word"

text \<open>
  The exceptions the modelled code can raise: \<open>struct.error\<close> from \<open>struct.pack\<close> and
  \<open>struct.unpack\<close>, \<open>TypeError\<close> from \<open>json.dumps\<close>, \<open>ValueError\<close> from \<open>int\<close>,
  \<open>KeyError\<close> from a dictionary lookup, and \<open>OSError\<close> from \<open>ImageFont.truetype\<close>.
\<close>

datatype error = StructError | TypeError | ValueError | KeyError | OSError

text \<open>
  \<open>struct.pack('>I', n)\<close>: four bytes, most significant first; \<open>struct.error\<close> when
  \<open>n\<close> does not fit an unsigned 32-bit integer.
\<close>

definition be32 :: "nat \<Rightarrow> byte list" where
  "be32 n = [of_nat (n div 2 ^ 24), of_nat (n div 2 ^ 16), of_nat (n div 2 ^ 8), of_nat n]"

definition pack_I :: "nat \<Rightarrow> error + byte list" where
  "pack_I n = (if n < 2 ^ 32 then Inr (be32 n) else Inl StructError)"

text \<open>
  \<open>struct.unpack('>I', bs)[0]\<close>: \<open>struct.error\<close> unless the buffer holds exactly four
  bytes.
\<close>

definition unpack_I :: "byte list \<Rightarrow> error + nat" where
  "unpack_I bs =
     (if length bs = 4
      then Inr (unat (bs ! 0) * 2 ^ 24 + unat (bs ! 1) * 2 ^ 16 + unat (bs ! 2) * 2 ^ 8
                + unat (bs ! 3))
      else Inl StructError)"

text \<open>Python's \<open>xs[i:j]\<close> for non-negative \<open>i\<close>, \<open>j\<close>: out-of-range bounds are clamped.\<close>

definition py_slice :: "nat \<Rightarrow> nat \<Rightarrow> 'a list \<Rightarrow> 'a list" where
  "py_slice i j xs = drop i (take j xs)"

text \<open>
  \<open>zlib.crc32\<close>: the CRC-32 of the PNG and zlib formats, reflected polynomial
  \<open>0xEDB88320\<close>, register preset to all ones and complemented at the end.
\<close>

definition crc_shift :: "32 word \<Rightarrow> 32 word" where
  "crc_shift c = (if bit c 0 then drop_bit 1 c XOR 0xEDB88320 else drop_bit 1 c)"

definition crc_byte :: "32 word \<Rightarrow> byte \<Rightarrow> 32 word" where
  "crc_byte c b = (crc_shift ^^ 8) (c XOR ucast b)"

definition crc32 :: "byte list \<Rightarrow> 32 word" where
  "crc32 bs = foldl crc_byte 0xFFFFFFFF bs XOR 0xFFFFFFFF"

section \<open>The chunk and the splice\<close>

text \<open>\<open>chunk_type = b'aiip'\<close>\<close>

definition chunk_type :: "byte list" where
  "chunk_type = [0x61, 0x69, 0x69, 0x70]"

text \<open>
  Lines 173 to 181 of \<open>embed_aiip_chunk\<close>: the chunk built from the compressed bytes.
  The first \<open>struct.pack\<close> raises when the data is 4 GiB or longer; the second cannot,
  its argument being masked to 32 bits.
\<close>

definition build_chunk :: "byte list \<Rightarrow> error + byte list" where
  "build_chunk compressed =
     (let chunk_data = 0x01 # compressed;
          crc = crc32 (chunk_type @ chunk_data) AND 0xffffffff
      in case pack_I (length chunk_data) of
           Inl e \<Rightarrow> Inl e
         | Inr len_field \<Rightarrow>
             (case pack_I (unat crc) of
                Inl e \<Rightarrow> Inl e
              | Inr crc_field \<Rightarrow> Inr (len_field @ chunk_type @ chunk_data @ crc_field)))"

text \<open>
  Lines 183 to 191: the length of the first chunk is read from bytes 8 to 12 of the encoded
  image, and the new chunk is spliced in behind that chunk.
\<close>

definition find_insert_pos :: "byte list \<Rightarrow> error + nat" where
  "find_insert_pos png_bytes =
     (case unpack_I (py_slice 8 12 png_bytes) of
        Inl e \<Rightarrow> Inl e
      | Inr ihdr_length \<Rightarrow> Inr (8 + 4 + 4 + ihdr_length + 4))"

definition splice_chunk :: "byte list \<Rightarrow> byte list \<Rightarrow> error + byte list" where
  "splice_chunk png_bytes compressed =
     (case build_chunk compressed of
        Inl e \<Rightarrow> Inl e
      | Inr chunk \<Rightarrow>
          (case find_insert_pos png_bytes of
             Inl e \<Rightarrow> Inl e
           | Inr insert_pos \<Rightarrow>
               Inr (take insert_pos png_bytes @ chunk @ drop insert_pos png_bytes)))"

section \<open>Python values and \<open>json.dumps\<close>\<close>

text \<open>
  The values \<open>json.dumps\<close> can be handed. Strings are sequences of code points up to
  U+00FF (every string of this program is ASCII). A finite float is given by the text
  \<open>float.__repr__\<close> prints for it, which is all the encoder asks of it. A \<open>dict\<close> is the
  list of its items in insertion order. \<open>PObject\<close> is any other object (a \<open>set\<close>, \<open>bytes\<close>,
  an instance of a class), with the name of its type. Values are trees: an object that
  contains itself is not a value of this type. The limits of the interpreter (the depth of
  recursion, the number of digits an \<open>int\<close> may be printed with, memory) are not modelled.
\<close>

datatype pyfloat = Finite string | NaN | PosInf | NegInf

datatype pyval =
    PNone
  | PBool bool
  | PInt int
  | PFloat pyfloat
  | PStr string
  | PList "pyval list"
  | PTuple "pyval list"
  | PDict "(pyval \<times> pyval) list"
  | PObject string

text \<open>\<open>int.__repr__\<close>\<close>

definition digit_char :: "nat \<Rightarrow> char" where
  "digit_char d = char_of (48 + d)"

fun digits :: "nat \<Rightarrow> string" where
  "digits n = (if n < 10 then [digit_char n] else digits (n div 10) @ [digit_char (n mod 10)])"

declare digits.simps [simp del]

definition int_repr :: "int \<Rightarrow> string" where
  "int_repr i = (if i < 0 then CHR ''-'' # digits (nat (- i)) else digits (nat i))"

text \<open>
  \<open>float.__repr__\<close> as the encoder uses it (\<open>allow_nan\<close> has its default \<open>True\<close>, so the
  three non-finite values are written and nothing is raised).
\<close>

fun float_repr :: "pyfloat \<Rightarrow> string" where
  "float_repr (Finite r) = r"
| "float_repr NaN = ''NaN''"
| "float_repr PosInf = ''Infinity''"
| "float_repr NegInf = ''-Infinity''"

text \<open>
  \<open>encode_basestring_ascii\<close> (\<open>ensure_ascii\<close> has its default \<open>True\<close>): the quote and
  the backslash are escaped, the five control characters with a short escape use it, every
  other character outside \<open>' '\<close> to \<open>'~'\<close> becomes \<open>\\u00XX\<close> in lower-case hexadecimal.
\<close>

definition hex_char :: "nat \<Rightarrow> char" where
  "hex_char d = (if d < 10 then char_of (48 + d) else char_of (87 + d))"

definition escape_char :: "char \<Rightarrow> string" where
  "escape_char c =
     (if c = CHR 0x22 then [CHR 0x5C, CHR 0x22]
      else if c = CHR 0x5C then [CHR 0x5C, CHR 0x5C]
      else if c = CHR 0x0A then [CHR 0x5C, CHR ''n'']
      else if c = CHR 0x0D then [CHR 0x5C, CHR ''r'']
      else if c = CHR 0x09 then [CHR 0x5C, CHR ''t'']
      else if c = CHR 0x08 then [CHR 0x5C, CHR ''b'']
      else if c = CHR 0x0C then [CHR 0x5C, CHR ''f'']
      else if 0x20 \<le> (of_char c :: nat) \<and> (of_char c :: nat) \<le> 0x7E then [c]
      else [CHR 0x5C, CHR ''u'', CHR ''0'', CHR ''0'',
            hex_char (of_char c div 16), hex_char (of_char c mod 16)])"

definition encode_basestring_ascii :: "string \<Rightarrow> string" where
  "encode_basestring_ascii s = CHR 0x22 # concat (map escape_char s) @ [CHR 0x22]"

text \<open>\<open>sep.join(xs)\<close>\<close>

fun join :: "'a list \<Rightarrow> 'a list list \<Rightarrow> 'a list" where
  "join sep [] = []"
| "join sep [x] = x"
| "join sep (x # y # ys) = x @ sep @ join sep (y # ys)"

text \<open>
  The text of a dictionary key: a string is itself; a float, a bool, \<open>None\<close> and an int
  are written as they would be as values; any other key raises \<open>TypeError\<close>
  (\<open>skipkeys\<close> has its default \<open>False\<close>).
\<close>

fun key_text :: "pyval \<Rightarrow> error + string" where
  "key_text (PStr s) = Inr s"
| "key_text (PFloat f) = Inr (float_repr f)"
| "key_text (PBool b) = Inr (if b then ''true'' else ''false'')"
| "key_text PNone = Inr ''null''"
| "key_text (PInt i) = Inr (int_repr i)"
| "key_text _ = Inl TypeError"

text \<open>
  \<open>json.dumps(data)\<close> with every option at its default: separators \<open>', '\<close> and
  \<open>': '\<close>, lists and tuples both written as arrays, an object of any other type refused
  with \<open>TypeError\<close>. The first item that raises ends the call.
\<close>

fun json_dumps :: "pyval \<Rightarrow> error + string"
  and dumps_items :: "pyval list \<Rightarrow> error + string list"
  and dumps_pairs :: "(pyval \<times> pyval) list \<Rightarrow> error + string list" where
  "json_dumps PNone = Inr ''null''"
| "json_dumps (PBool b) = Inr (if b then ''true'' else ''false'')"
| "json_dumps (PInt i) = Inr (int_repr i)"
| "json_dumps (PFloat f) = Inr (float_repr f)"
| "json_dumps (PStr s) = Inr (encode_basestring_ascii s)"
| "json_dumps (PList xs) =
     (case dumps_items xs of
        Inl e \<Rightarrow> Inl e
      | Inr ts \<Rightarrow> Inr (''['' @ join '', '' ts @ '']''))"
| "json_dumps (PTuple xs) =
     (case dumps_items xs of
        Inl e \<Rightarrow> Inl e
      | Inr ts \<Rightarrow> Inr (''['' @ join '', '' ts @ '']''))"
| "json_dumps (PDict kvs) =
     (case dumps_pairs kvs of
        Inl e \<Rightarrow> Inl e
      | Inr ts \<Rightarrow> Inr (''{'' @ join '', '' ts @ ''}''))"
| "json_dumps (PObject ty) = Inl TypeError"
| "dumps_items [] = Inr []"
| "dumps_items (x # xs) =
     (case json_dumps x of
        Inl e \<Rightarrow> Inl e
      | Inr t \<Rightarrow> (case dumps_items xs of Inl e \<Rightarrow> Inl e | Inr ts \<Rightarrow> Inr (t # ts)))"
| "dumps_pairs [] = Inr []"
| "dumps_pairs ((k, v) # kvs) =
     (case key_text k of
        Inl e \<Rightarrow> Inl e
      | Inr kt \<Rightarrow>
          (case json_dumps v of
             Inl e \<Rightarrow> Inl e
           | Inr t \<Rightarrow>
               (case dumps_pairs kvs of
                  Inl e \<Rightarrow> Inl e
                | Inr ts \<Rightarrow> Inr ((encode_basestring_ascii kt @ '': '' @ t) # ts))))"

text \<open>
  The values \<open>json.dumps\<close> accepts: every item of a list, a tuple or a dict is accepted,
  and every dict key is a string, a float, a bool, \<open>None\<close> or an int.
\<close>

fun key_ok :: "pyval \<Rightarrow> bool" where
  "key_ok (PStr s) = True"
| "key_ok (PFloat f) = True"
| "key_ok (PBool b) = True"
| "key_ok PNone = True"
| "key_ok (PInt i) = True"
| "key_ok _ = False"

fun serializable :: "pyval \<Rightarrow> bool" where
  "serializable (PList xs) = (\<forall>x \<in> set xs. serializable x)"
| "serializable (PTuple xs) = (\<forall>x \<in> set xs. serializable x)"
| "serializable (PDict kvs) = (\<forall>kv \<in> set kvs. key_ok (fst kv) \<and> serializable (snd kv))"
| "serializable (PObject ty) = False"
| "serializable _ = True"

text \<open>\<open>str.encode('utf-8')\<close> on code points up to U+00FF: one byte below U+0080, two above.\<close>

definition utf8_char :: "char \<Rightarrow> byte list" where
  "utf8_char c =
     (if (of_char c :: nat) < 0x80 then [of_char c]
      else [of_nat (192 + of_char c div 64), of_nat (128 + of_char c mod 64)])"

definition encode_utf8 :: "string \<Rightarrow> byte list" where
  "encode_utf8 s = concat (map utf8_char s)"

section \<open>\<open>embed_aiip_chunk\<close>\<close>

text \<open>
  The function as a whole. \<open>png_bytes\<close> is what \<open>img.save(buffer, format='PNG')\<close> left in
  the buffer, and \<open>compress\<close> is \<open>zlib.compress\<close>: the image encoder and the compressor
  are libraries, taken as they come. Serialization runs before the chunk is built, so its
  error comes first.
\<close>

definition embed_aiip_chunk ::
  "(byte list \<Rightarrow> byte list) \<Rightarrow> byte list \<Rightarrow> pyval \<Rightarrow> error + byte list" where
  "embed_aiip_chunk compress png_bytes data =
     (case json_dumps data of
        Inl e \<Rightarrow> Inl e
      | Inr json_str \<Rightarrow>
          (let compressed = compress (encode_utf8 json_str)
           in splice_chunk png_bytes compressed))"

section \<open>The renderer: constants and data\<close>

definition WIDTH :: int where
  "WIDTH = 800"

definition HEIGHT :: int where
  "HEIGHT = 600"

definition BG_COLOR :: string where
  "BG_COLOR = ''#1a3a5c''"

definition REGION_COLORS :: "(string \<times> string) list" where
  "REGION_COLORS = [(''low'', ''#2ecc71''), (''medium'', ''#f1c40f''), (''high'', ''#e74c3c'')]"

text \<open>
  \<open>DATA\<close> is a dictionary literal of a fixed shape, read by fixed keys: its entries are the
  fields of a record.
\<close>

record country =
  country_name :: string
  rate :: string

record region =
  region_name :: string
  tariff :: string
  level :: string
  countries :: "country list"
  bounds :: "int \<times> int \<times> int \<times> int"

record dataset =
  title :: string
  regions :: "region list"

definition DATA :: dataset where
  "DATA = \<lparr>title = ''US Trade Tariffs 2025'',
     regions =
       [\<lparr>region_name = ''North America'', tariff = ''25%'', level = ''medium'',
          countries = [\<lparr>country_name = ''Canada'', rate = ''25%''\<rparr>,
                       \<lparr>country_name = ''Mexico'', rate = ''25%''\<rparr>],
          bounds = (50, 100, 250, 250)\<rparr>,
        \<lparr>region_name = ''South America'', tariff = ''35%'', level = ''high'',
          countries = [\<lparr>country_name = ''Brazil'', rate = ''50%''\<rparr>,
                       \<lparr>country_name = ''Argentina'', rate = ''15%''\<rparr>],
          bounds = (150, 280, 300, 450)\<rparr>,
        \<lparr>region_name = ''Europe'', tariff = ''15%'', level = ''low'',
          countries = [\<lparr>country_name = ''UK'', rate = ''10%''\<rparr>,
                       \<lparr>country_name = ''EU'', rate = ''20%''\<rparr>,
                       \<lparr>country_name = ''Switzerland'', rate = ''39%''\<rparr>],
          bounds = (350, 80, 500, 220)\<rparr>,
        \<lparr>region_name = ''Asia'', tariff = ''30%'', level = ''high'',
          countries = [\<lparr>country_name = ''China'', rate = ''30%''\<rparr>,
                       \<lparr>country_name = ''Japan'', rate = ''15%''\<rparr>,
                       \<lparr>country_name = ''India'', rate = ''50%''\<rparr>],
          bounds = (520, 100, 750, 280)\<rparr>]\<rparr>"

text \<open>
  The same dictionary as the Python value that \<open>main\<close> hands to the serializer, the keys in
  the order of the literal and the bounds a tuple; and the envelope \<open>main\<close> builds around it.
\<close>

definition py_of_country :: "country \<Rightarrow> pyval" where
  "py_of_country c =
     PDict [(PStr ''name'', PStr (country_name c)), (PStr ''rate'', PStr (rate c))]"

definition py_of_region :: "region \<Rightarrow> pyval" where
  "py_of_region r =
     (case bounds r of (x1, y1, x2, y2) \<Rightarrow>
        PDict [(PStr ''name'', PStr (region_name r)),
               (PStr ''tariff'', PStr (tariff r)),
               (PStr ''level'', PStr (level r)),
               (PStr ''countries'', PList (map py_of_country (countries r))),
               (PStr ''bounds'', PTuple [PInt x1, PInt y1, PInt x2, PInt y2])])"

definition py_of_dataset :: "dataset \<Rightarrow> pyval" where
  "py_of_dataset d =
     PDict [(PStr ''title'', PStr (title d)),
            (PStr ''regions'', PList (map py_of_region (regions d)))]"

definition aiip_data :: pyval where
  "aiip_data =
     PDict [(PStr ''version'', PStr ''3.0''),
            (PStr ''canvas'', PDict [(PStr ''width'', PInt WIDTH), (PStr ''height'', PInt HEIGHT)]),
            (PStr ''meta'', PDict [(PStr ''title'', PStr (title DATA)),
                                   (PStr ''author'', PStr ''aezi zhu''),
                                   (PStr ''created'', PStr ''2025-01-01'')]),
            (PStr ''data'', py_of_dataset DATA)]"

section \<open>The renderer: double-precision arithmetic\<close>

text \<open>
  A double is a pair \<open>(m, e)\<close> standing for \<open>m * 2 ^ e\<close>. Every operation computes the
  exact result and rounds it to 53 significant bits, ties to the even neighbour, as
  IEEE 754 arithmetic does. Overflow and subnormal numbers are left out: the values of
  this program lie between \<open>2 ^ -2\<close> and \<open>2 ^ 9\<close>.
\<close>

type_synonym double = "int \<times> int"

function bit_length :: "int \<Rightarrow> int" where
  "bit_length n = (if n \<le> 0 then 0 else 1 + bit_length (n div 2))"
  by pat_completeness auto
termination
  by (relation "measure nat") auto

declare bit_length.simps [simp del]

definition div_half_even :: "int \<Rightarrow> int \<Rightarrow> int" where
  "div_half_even a b =
     (let q = a div b; r = a mod b
      in if 2 * r < b then q else if b < 2 * r then q + 1 else if even q then q else q + 1)"

definition round53 :: "double \<Rightarrow> double" where
  "round53 x =
     (case x of (m, e) \<Rightarrow>
        let k = bit_length \<bar>m\<bar> - 53
        in if k \<le> 0 then (m, e) else (sgn m * div_half_even \<bar>m\<bar> (2 ^ nat k), e + k))"

definition float_mul :: "double \<Rightarrow> double \<Rightarrow> double" where
  "float_mul x y = (case x of (m1, e1) \<Rightarrow> case y of (m2, e2) \<Rightarrow> round53 (m1 * m2, e1 + e2))"

definition float_add :: "double \<Rightarrow> double \<Rightarrow> double" where
  "float_add x y =
     (case x of (m1, e1) \<Rightarrow> case y of (m2, e2) \<Rightarrow>
        let e = min e1 e2
        in round53 (m1 * 2 ^ nat (e1 - e) + m2 * 2 ^ nat (e2 - e), e))"

text \<open>An \<open>int\<close> operand of a float operation is converted first.\<close>

definition float_of_int :: "int \<Rightarrow> double" where
  "float_of_int i = round53 (i, 0)"

text \<open>\<open>int(x)\<close> on a float drops the fraction.\<close>

definition int_of_float :: "double \<Rightarrow> int" where
  "int_of_float x =
     (case x of (m, e) \<Rightarrow>
        if 0 \<le> e then m * 2 ^ nat e else sgn m * (\<bar>m\<bar> div 2 ^ nat (- e)))"

text \<open>The literals \<open>0.3\<close> and \<open>0.7\<close>: the doubles nearest to 3/10 and to 7/10.\<close>

definition double_0_3 :: double where
  "double_0_3 = (5404319552844595, - 54)"

definition double_0_7 :: double where
  "double_0_7 = (6305039478318694, - 53)"

section \<open>The renderer: fill colour\<close>

text \<open>
  \<open>int(s, 16)\<close> on a string of hexadecimal digits, \<open>ValueError\<close> on the empty string and
  on any other character. (Python's \<open>int\<close> also reads a sign, blanks around the number,
  underscores between digits and a \<open>0x\<close> prefix; the colour constants hold none of these,
  and such strings are not modelled.)
\<close>

definition hex_value :: "char \<Rightarrow> int option" where
  "hex_value c =
     (let n = (of_char c :: int)
      in if 48 \<le> n \<and> n \<le> 57 then Some (n - 48)
         else if 97 \<le> n \<and> n \<le> 102 then Some (n - 87)
         else if 65 \<le> n \<and> n \<le> 70 then Some (n - 55)
         else None)"

fun int_base16_from :: "int \<Rightarrow> string \<Rightarrow> error + int" where
  "int_base16_from acc [] = Inr acc"
| "int_base16_from acc (c # cs) =
     (case hex_value c of
        None \<Rightarrow> Inl ValueError
      | Some d \<Rightarrow> int_base16_from (16 * acc + d) cs)"

definition int_base16 :: "string \<Rightarrow> error + int" where
  "int_base16 s = (if s = [] then Inl ValueError else int_base16_from 0 s)"

text \<open>A comprehension or a loop whose body may raise: the first error ends it.\<close>

fun traverse :: "('a \<Rightarrow> error + 'b) \<Rightarrow> 'a list \<Rightarrow> error + 'b list" where
  "traverse f [] = Inr []"
| "traverse f (x # xs) =
     (case f x of
        Inl e \<Rightarrow> Inl e
      | Inr y \<Rightarrow> (case traverse f xs of Inl e \<Rightarrow> Inl e | Inr ys \<Rightarrow> Inr (y # ys)))"

text \<open>
  Lines 118 and 119: \<open>int(c * 0.3 + int(BG_COLOR[1:3], 16) * 0.7)\<close> for \<open>c\<close> in the three
  channels of \<open>color\<close>. The background operand is \<open>BG_COLOR[1:3]\<close> for each of the three.
\<close>

definition blend_channel :: "int \<Rightarrow> error + int" where
  "blend_channel c =
     (case int_base16 (py_slice 1 3 BG_COLOR) of
        Inl e \<Rightarrow> Inl e
      | Inr bg \<Rightarrow>
          Inr (int_of_float (float_add (float_mul (float_of_int c) double_0_3)
                                       (float_mul (float_of_int bg) double_0_7))))"

definition fill_color :: "string \<Rightarrow> error + int list" where
  "fill_color color =
     (case traverse int_base16 [py_slice 1 3 color, py_slice 3 5 color, py_slice 5 7 color] of
        Inl e \<Rightarrow> Inl e
      | Inr cs \<Rightarrow> traverse blend_channel cs)"

section \<open>The renderer: fonts and drawing\<close>

text \<open>
  The image is the canvas that \<open>Image.new\<close> makes, with the drawing calls made on it, in
  order. What the imaging library does with a call is its own business: the calls and
  \<open>ImageFont.load_default\<close> are taken to return, and no call changes the size of the canvas.
  A font is the FreeType font \<open>ImageFont.truetype\<close> loaded from a path at a size, or the
  built-in font of \<open>ImageFont.load_default\<close>. A \<open>Rectangle\<close> holds the corners, the fill, the
  outline and the width of the outline; a \<open>Text\<close> holds the position, the string, the fill,
  the font and the anchor.
\<close>

datatype font = FreeTypeFont string nat | DefaultFont

datatype ink = ColorName string | ColorTuple "int list"

datatype draw_call =
    Rectangle "int list" "ink option" "ink option" int
  | Text "int \<times> int" string ink font string

record image =
  im_size :: "int \<times> int"
  im_color :: string
  im_calls :: "draw_call list"

definition font_path :: string where
  "font_path = ''/System/Library/Fonts/Helvetica.ttc''"

text \<open>
  Lines 92 to 99. The host is what \<open>ImageFont.truetype\<close> answers to a path and a size:
  a font or an exception. The bare \<open>except\<close> catches whatever any of the three calls
  raises and sets all three fonts to the built-in one.
\<close>

definition load_fonts :: "(string \<Rightarrow> nat \<Rightarrow> error + font) \<Rightarrow> font \<times> font \<times> font" where
  "load_fonts truetype =
     (case truetype font_path 24 of
        Inl e \<Rightarrow> (DefaultFont, DefaultFont, DefaultFont)
      | Inr font_large \<Rightarrow>
          (case truetype font_path 14 of
             Inl e \<Rightarrow> (DefaultFont, DefaultFont, DefaultFont)
           | Inr font_medium \<Rightarrow>
               (case truetype font_path 11 of
                  Inl e \<Rightarrow> (DefaultFont, DefaultFont, DefaultFont)
                | Inr font_small \<Rightarrow> (font_large, font_medium, font_small))))"

text \<open>\<open>d[key]\<close> on a dictionary with string keys.\<close>

definition getitem :: "(string \<times> 'a) list \<Rightarrow> string \<Rightarrow> error + 'a" where
  "getitem d k = (case map_of d k of None \<Rightarrow> Inl KeyError | Some v \<Rightarrow> Inr v)"

text \<open>Lines 131 to 136: one line of text for each country, 18 pixels apart.\<close>

fun draw_countries :: "font \<Rightarrow> int \<Rightarrow> int \<Rightarrow> country list \<Rightarrow> draw_call list" where
  "draw_countries font_small x y_offset [] = []"
| "draw_countries font_small x y_offset (c # cs) =
     Text (x, y_offset) (country_name c @ '': '' @ rate c) (ColorName ''#cccccc'') font_small ''mm''
     # draw_countries font_small x (y_offset + 18) cs"

text \<open>Lines 111 to 136: the body of the loop over the regions.\<close>

definition draw_region :: "font \<Rightarrow> font \<Rightarrow> region \<Rightarrow> error + draw_call list" where
  "draw_region font_medium font_small r =
     (case bounds r of (x1, y1, x2, y2) \<Rightarrow>
        (case getitem REGION_COLORS (level r) of
           Inl e \<Rightarrow> Inl e
         | Inr color \<Rightarrow>
             (case fill_color color of
                Inl e \<Rightarrow> Inl e
              | Inr fill \<Rightarrow>
                  Inr ([Rectangle [x1, y1, x2, y2] None (Some (ColorName color)) 2,
                        Rectangle [x1 + 2, y1 + 2, x2 - 2, y2 - 2] (Some (ColorTuple fill)) None 1,
                        Text ((x1 + x2) div 2, y1 + 15) (region_name r) (ColorName ''white'')
                          font_medium ''mm'',
                        Text ((x1 + x2) div 2, y1 + 35) (''Avg: '' @ tariff r) (ColorName color)
                          font_medium ''mm'']
                       @ draw_countries font_small ((x1 + x2) div 2) (y1 + 60) (countries r)))))"

text \<open>Lines 139 to 150: the legend, one swatch and one label for each item, 150 pixels apart.\<close>

definition legend_items :: "error + (string \<times> string) list" where
  "legend_items =
     traverse (\<lambda>(label, key). case getitem REGION_COLORS key of
                                  Inl e \<Rightarrow> Inl e
                                | Inr color \<Rightarrow> Inr (label, color))
       [(''Low (10-15%)'', ''low''), (''Medium (20-25%)'', ''medium''),
        (''High (30-50%)'', ''high'')]"

fun draw_legend :: "font \<Rightarrow> int \<Rightarrow> int \<Rightarrow> (string \<times> string) list \<Rightarrow> draw_call list" where
  "draw_legend font_small legend_x legend_y [] = []"
| "draw_legend font_small legend_x legend_y ((label, color) # items) =
     Rectangle [legend_x, legend_y, legend_x + 15, legend_y + 15] (Some (ColorName color)) None 1
     # Text (legend_x + 22, legend_y + 7) label (ColorName ''white'') font_small ''lm''
     # draw_legend font_small (legend_x + 150) legend_y items"

text \<open>\<open>create_aiip_image\<close>, on a host.\<close>

definition create_aiip_image :: "(string \<Rightarrow> nat \<Rightarrow> error + font) \<Rightarrow> error + image" where
  "create_aiip_image truetype =
     (case load_fonts truetype of (font_large, font_medium, font_small) \<Rightarrow>
        (case traverse (draw_region font_medium font_small) (regions DATA) of
           Inl e \<Rightarrow> Inl e
         | Inr region_calls \<Rightarrow>
             (case legend_items of
                Inl e \<Rightarrow> Inl e
              | Inr items \<Rightarrow>
                  Inr \<lparr>im_size = (WIDTH, HEIGHT), im_color = BG_COLOR,
                       im_calls =
                         [Text (WIDTH div 2, 30) (title DATA) (ColorName ''white'') font_large ''mm'',
                          Text (WIDTH div 2, 55) ''Hover regions for details (in AIIP viewer)''
                            (ColorName ''#888888'') font_small ''mm'']
                         @ concat region_calls
                         @ draw_legend font_small 100 (HEIGHT - 50) items
                         @ [Text (WIDTH div 2, HEIGHT - 15)
                              ''AIIP v3.0 - Annotated Interactive Image Protocol | github.com/aezizhu''
                              (ColorName ''#666666'') font_small ''mm'']\<rparr>)))"

text \<open>The fonts an image was drawn with.\<close>

fun call_fonts :: "draw_call \<Rightarrow> font list" where
  "call_fonts (Text xy t fill f anchor) = [f]"
| "call_fonts (Rectangle xy fill outline w) = []"

section \<open>Extraction\<close>







definition is_digit :: "char \<Rightarrow> bool" where
  "is_digit c = (48 \<le> (of_char c :: nat) \<and> (of_char c :: nat) \<le> 57)"

definition is_numchar :: "char \<Rightarrow> bool" where
  "is_numchar c = (is_digit c \<or> c \<in> set ''-+.eE'')"











text \<open>
  Modelled from the spec: the dictionary of an object, \<open>dict(pairs)\<close>; a key that comes
  again keeps its place and takes the later value.
\<close>

fun dict_update :: "(pyval \<times> pyval) list \<Rightarrow> pyval \<Rightarrow> pyval \<Rightarrow> (pyval \<times> pyval) list" where
  "dict_update [] k v = [(k, v)]"
| "dict_update ((k', v') # kvs) k v =
     (if k' = k then (k, v) # kvs else (k', v') # dict_update kvs k v)"

definition dict_of_pairs :: "(pyval \<times> pyval) list \<Rightarrow> (pyval \<times> pyval) list" where
  "dict_of_pairs kvs = foldl (\<lambda>d (k, v). dict_update d k v) [] kvs"










section \<open>Notions for the round trip\<close>

text \<open>
  What serializing and deserializing makes of a value: a tuple comes back as a list, and a
  dictionary key comes back as the string it was written as.
\<close>

definition key_string :: "pyval \<Rightarrow> string" where
  "key_string k = (case key_text k of Inr t \<Rightarrow> t | Inl e \<Rightarrow> [])"

fun json_norm :: "pyval \<Rightarrow> pyval" where
  "json_norm (PList xs) = PList (map json_norm xs)"
| "json_norm (PTuple xs) = PList (map json_norm xs)"
| "json_norm (PDict kvs) =
     PDict (dict_of_pairs (map (\<lambda>kv. (PStr (key_string (fst kv)), json_norm (snd kv))) kvs))"
| "json_norm v = v"


text \<open>
  The text of a finite float as its \<open>repr\<close> writes it: it begins with a digit, or with a
  minus sign and a digit, is made of the characters of a number and holds a point or an
  exponent.
\<close>

definition float_text :: "string \<Rightarrow> bool" where
  "float_text r =
     (r \<noteq> [] \<and> (is_digit (hd r) \<or> (hd r = CHR ''-'' \<and> tl r \<noteq> [] \<and> is_digit (hd (tl r))))
      \<and> (\<forall>c \<in> set r. is_numchar c) \<and> (\<exists>c \<in> set r. c \<in> set ''.eE''))"

text \<open>The values that can be written and read back: serializable, their floats well written.\<close>

fun loadable :: "pyval \<Rightarrow> bool" where
  "loadable (PFloat f) = (case f of Finite r \<Rightarrow> float_text r | _ \<Rightarrow> True)"
| "loadable (PList xs) = (\<forall>x \<in> set xs. loadable x)"
| "loadable (PTuple xs) = (\<forall>x \<in> set xs. loadable x)"
| "loadable (PDict kvs) = (\<forall>kv \<in> set kvs. key_ok (fst kv) \<and> loadable (snd kv))"
| "loadable (PObject ty) = False"
| "loadable _ = True"

text \<open>
  The values that come back as they were: \<open>None\<close>, bools, ints, finite floats, strings,
  lists of such values, and dictionaries of such values whose keys are strings, each key
  once.
\<close>

fun plain :: "pyval \<Rightarrow> bool" where
  "plain (PFloat f) = (case f of Finite r \<Rightarrow> float_text r | _ \<Rightarrow> False)"
| "plain (PList xs) = (\<forall>x \<in> set xs. plain x)"
| "plain (PTuple xs) = False"
| "plain (PDict kvs) =
     ((\<forall>kv \<in> set kvs. (\<exists>s. fst kv = PStr s) \<and> plain (snd kv)) \<and> distinct (map fst kvs))"
| "plain (PObject ty) = False"
| "plain _ = True"

section \<open>The container signature\<close>

text \<open>
  Modelled from the spec: the fixed 8-byte signature a container begins with. The source
  never names or reads it; these are the eight bytes every PNG file starts with.
\<close>

definition png_signature :: "byte list" where
  "png_signature = [137, 80, 78, 71, 13, 10, 26, 10]"

section \<open>Example data\<close>

text \<open>
  A compressor to run the examples with: a zlib stream of one stored block, which every
  inflater reads back (\<open>zlib.compress\<close> itself picks a Huffman-coded block). It takes
  inputs below 64 KiB. \<open>adler32\<close> is the checksum that ends a zlib stream.
\<close>

definition adler32 :: "byte list \<Rightarrow> nat" where
  "adler32 bs =
     (let (a, b) = foldl (\<lambda>(a, b) x. let a' = (a + unat x) mod 65521
                                       in (a', (b + a') mod 65521)) (1, 0) bs
      in b * 65536 + a)"

definition zlib_store :: "byte list \<Rightarrow> byte list" where
  "zlib_store bs =
     [0x78, 0x01, 0x01, of_nat (length bs), of_nat (length bs div 256),
      NOT (of_nat (length bs)), NOT (of_nat (length bs div 256))]
     @ bs @ be32 (adler32 bs)"


text \<open>A complete PNG file of one black pixel, 69 bytes: signature, IHDR, IDAT, IEND.\<close>

definition png_1x1 :: "byte list" where
  "png_1x1 =
     [137, 80, 78, 71, 13, 10, 26, 10,
      0, 0, 0, 13, 73, 72, 68, 82, 0, 0, 0, 1, 0, 0, 0, 1, 8, 2, 0, 0, 0, 144, 119, 83, 222,
      0, 0, 0, 12, 73, 68, 65, 84, 120, 156, 99, 96, 96, 96, 0, 0, 0, 4, 0, 1,
      246, 23, 56, 85,
      0, 0, 0, 0, 73, 69, 78, 68, 174, 66, 96, 130]"

text \<open>A small envelope, and the text and bytes \<open>json.dumps\<close> and \<open>encode\<close> make of it.\<close>

definition envelope_T :: pyval where
  "envelope_T =
     PDict [(PStr ''version'', PStr ''3.0''),
            (PStr ''canvas'', PDict [(PStr ''width'', PInt 800), (PStr ''height'', PInt 600)]),
            (PStr ''meta'', PDict [(PStr ''title'', PStr ''T'')]),
            (PStr ''data'', PDict [])]"

definition json_T :: string where
  "json_T = ''{\"version\": \"3.0\", \"canvas\": {\"width\": 800, \"height\": 600}, \"meta\": {\"title\": \"T\"}, \"data\": {}}''"

definition bytes_T :: "byte list" where
  "bytes_T =
     [123, 34, 118, 101, 114, 115, 105, 111, 110, 34, 58, 32, 34, 51, 46, 48, 34, 44, 32,
      34, 99, 97, 110, 118, 97, 115, 34, 58, 32, 123, 34, 119, 105, 100, 116, 104, 34, 58,
      32, 56, 48, 48, 44, 32, 34, 104, 101, 105, 103, 104, 116, 34, 58, 32, 54, 48, 48, 125,
      44, 32, 34, 109, 101, 116, 97, 34, 58, 32, 123, 34, 116, 105, 116, 108, 101, 34, 58,
      32, 34, 84, 34, 125, 44, 32, 34, 100, 97, 116, 97, 34, 58, 32, 123, 125, 125]"

definition stored_T :: "byte list" where
  "stored_T = [120, 1, 1, 95, 0, 160, 255] @ bytes_T @ [39, 161, 27, 124]"

definition chunk_T :: "byte list" where
  "chunk_T = [0, 0, 0, 107, 97, 105, 105, 112, 1] @ stored_T @ [158, 42, 191, 154]"

definition out_T :: "byte list" where
  "out_T = take 33 png_1x1 @ chunk_T @ drop 33 png_1x1"





section \<open>Big-endian fields\<close>

lemma length_be32: "length (be32 n) = 4"
  by (simp add: be32_def)

lemma unat_byte_of_nat: "unat (of_nat k :: byte) = k mod 256"
  by (simp add: unat_of_nat)

lemma be_digits:
  fixes n :: nat
  assumes "n < 4294967296"
  shows "n div 16777216 mod 256 * 16777216 + n div 65536 mod 256 * 65536
         + n div 256 mod 256 * 256 + n mod 256 = n"
proof -
  have a: "n div 16777216 mod 256 = n div 16777216"
    using assms by (intro mod_less) (simp add: less_mult_imp_div_less)
  have b: "n mod 16777216 = 65536 * (n div 65536 mod 256) + n mod 65536"
    using mod_mult2_eq [of n 65536 256] by simp
  have c: "n mod 65536 = 256 * (n div 256 mod 256) + n mod 256"
    using mod_mult2_eq [of n 256 256] by simp
  have "n = n div 16777216 * 16777216 + n mod 16777216"
    by simp
  with a b c show ?thesis by simp
qed

lemma unpack_be32: "n < 2 ^ 32 \<Longrightarrow> unpack_I (be32 n) = Inr n"
  using be_digits [of n] by (simp add: unpack_I_def be32_def unat_byte_of_nat)

lemma be32_inj:
  assumes "be32 m = be32 n" and "m < 2 ^ 32" and "n < 2 ^ 32"
  shows "m = n"
proof -
  have "unpack_I (be32 m) = unpack_I (be32 n)" using assms(1) by simp
  then show ?thesis using assms(2,3) by (simp add: unpack_be32)
qed

lemma unat_word32_less: "unat (w :: 32 word) < 2 ^ 32"
  using unsigned_less [of w] by simp

lemma be32_unat_inj: "be32 (unat (v :: 32 word)) = be32 (unat w) \<Longrightarrow> v = w"
  using be32_inj [of "unat v" "unat w"] unat_word32_less [of v] unat_word32_less [of w]
  by (simp add: word_unat_eq_iff)

lemma mask32: "(w :: 32 word) AND 0xffffffff = w"
proof -
  have "(0xffffffff :: 32 word) = - 1" by simp
  then show ?thesis by (simp only: and.right_neutral word_and_max)
qed

lemma pack_I_crc: "pack_I (unat (w :: 32 word)) = Inr (be32 (unat w))"
  using unat_word32_less [of w] by (simp add: pack_I_def)

section \<open>The CRC tells two messages apart that differ in one byte\<close>

lemma xor_cancel_right: "(a :: 32 word) XOR c = b XOR c \<Longrightarrow> a = b"
proof -
  assume "a XOR c = b XOR c"
  then have "(a XOR c) XOR c = (b XOR c) XOR c" by simp
  then show "a = b" by (simp add: xor.assoc)
qed

lemma xor_cancel_left: "(c :: 32 word) XOR a = c XOR b \<Longrightarrow> a = b"
  using xor_cancel_right [of a c b] by (simp add: xor.commute)

lemma shifted_top_bit: "\<not> bit (drop_bit 1 (x :: 32 word)) 31"
  using bit_imp_le_length [of x 32] by (auto simp: bit_drop_bit_eq)

lemma crc_shift_top: "bit (crc_shift x) 31 = bit x 0"
  using shifted_top_bit [of x] by (simp add: crc_shift_def bit_xor_iff del: bit_0)

lemma crc_shift_inj:
  assumes "crc_shift x = crc_shift y"
  shows "x = y"
proof -
  have b0: "bit x 0 = bit y 0"
    using assms crc_shift_top [of x] crc_shift_top [of y] by simp
  have d: "drop_bit 1 x = drop_bit 1 y"
  proof (cases "bit x 0")
    case True
    with b0 assms have "drop_bit 1 x XOR 0xEDB88320 = drop_bit 1 y XOR 0xEDB88320"
      by (simp add: crc_shift_def del: bit_0)
    then show ?thesis by (rule xor_cancel_right)
  next
    case False
    with b0 assms show ?thesis by (simp add: crc_shift_def del: bit_0)
  qed
  show ?thesis
  proof (rule bit_eqI)
    fix n
    show "bit x n = bit y n"
    proof (cases n)
      case 0
      with b0 show ?thesis by simp
    next
      case (Suc m)
      have "bit x (Suc m) = bit (drop_bit 1 x) m" by (simp add: bit_drop_bit_eq)
      also have "\<dots> = bit (drop_bit 1 y) m" by (simp only: d)
      also have "\<dots> = bit y (Suc m)" by (simp add: bit_drop_bit_eq)
      finally show ?thesis using Suc by simp
    qed
  qed
qed

lemma crc_shift_pow_inj: "(crc_shift ^^ n) x = (crc_shift ^^ n) y \<Longrightarrow> x = y"
  by (induction n) (auto dest: crc_shift_inj)

lemma uint_ucast_byte: "uint (ucast (a :: byte) :: 32 word) = uint a"
  by (rule uint_up_ucast) (simp add: is_up)

lemma ucast_byte_inj: "(ucast (a :: byte) :: 32 word) = ucast b \<Longrightarrow> a = b"
  using uint_ucast_byte [of a] uint_ucast_byte [of b] by (simp add: word_uint_eq_iff)

lemma crc_byte_inj_state: "crc_byte c b = crc_byte c' b \<Longrightarrow> c = c'"
  unfolding crc_byte_def by (blast dest: crc_shift_pow_inj xor_cancel_right)

lemma crc_byte_inj_byte: "crc_byte c b = crc_byte c b' \<Longrightarrow> b = b'"
  unfolding crc_byte_def by (blast dest: crc_shift_pow_inj xor_cancel_left ucast_byte_inj)

lemma crc_fold_inj: "foldl crc_byte c bs = foldl crc_byte c' bs \<Longrightarrow> c = c'"
  by (induction bs arbitrary: c c') (auto dest: crc_byte_inj_state)

lemma crc32_single_byte:
  assumes "crc32 (pre @ b # post) = crc32 (pre @ b' # post)"
  shows "b = b'"
proof -
  from assms have "foldl crc_byte (crc_byte (foldl crc_byte 0xFFFFFFFF pre) b) post
                 = foldl crc_byte (crc_byte (foldl crc_byte 0xFFFFFFFF pre) b') post"
    unfolding crc32_def foldl_append foldl.simps by (rule xor_cancel_right)
  then show ?thesis
    by (blast dest: crc_fold_inj crc_byte_inj_byte)
qed

lemma crc32_detects_update:
  assumes "i < length bs" and "b \<noteq> bs ! i"
  shows "crc32 (bs[i := b]) \<noteq> crc32 bs"
proof
  assume eq: "crc32 (bs[i := b]) = crc32 bs"
  have "bs[i := b] = take i bs @ b # drop (Suc i) bs"
    using assms(1) by (simp add: upd_conv_take_nth_drop)
  moreover have "bs = take i bs @ bs ! i # drop (Suc i) bs"
    using assms(1) by (simp add: id_take_nth_drop)
  ultimately have "crc32 (take i bs @ b # drop (Suc i) bs)
                 = crc32 (take i bs @ bs ! i # drop (Suc i) bs)"
    using eq by simp
  then have "b = bs ! i" by (rule crc32_single_byte)
  with assms(2) show False by simp
qed

text \<open>Rules that let the simplifier run the CRC on numerals, innermost call first.\<close>

lemma crc_shift_numeral:
  "crc_shift (numeral k) =
     (if bit (numeral k :: 32 word) 0 then drop_bit 1 (numeral k) XOR 0xEDB88320
      else drop_bit 1 (numeral k))"
  "crc_shift 0 = 0"
  "crc_shift 1 = 0xEDB88320"
  by (simp_all add: crc_shift_def)

lemma crc_byte_unfold:
  "crc_byte c b =
     crc_shift (crc_shift (crc_shift (crc_shift (crc_shift (crc_shift (crc_shift (crc_shift
       (c XOR ucast b))))))))"
  by (simp add: crc_byte_def eval_nat_numeral)

lemma crc32_check_value: "crc32 [49, 50, 51, 52, 53, 54, 55, 56, 57] = 0xCBF43926"
  by (simp add: crc32_def crc_byte_unfold crc_shift_numeral)

section \<open>What \<open>embed_aiip_chunk\<close> returns\<close>

lemma build_chunk_cases:
  "build_chunk compressed =
     (if 1 + length compressed < 2 ^ 32
      then Inr (be32 (1 + length compressed) @ chunk_type @ (0x01 # compressed)
                @ be32 (unat (crc32 (chunk_type @ 0x01 # compressed))))
      else Inl StructError)"
  unfolding build_chunk_def Let_def mask32 pack_I_crc
  by (simp add: pack_I_def)

lemma find_insert_pos_cases:
  "find_insert_pos png_bytes =
     (if 12 \<le> length png_bytes
      then Inr (20 + (unat (png_bytes ! 8) * 2 ^ 24 + unat (png_bytes ! 9) * 2 ^ 16
                      + unat (png_bytes ! 10) * 2 ^ 8 + unat (png_bytes ! 11)))
      else Inl StructError)"
  by (auto simp: find_insert_pos_def unpack_I_def py_slice_def)

lemma find_insert_pos_ge: "find_insert_pos png_bytes = Inr p \<Longrightarrow> 20 \<le> p \<and> 12 \<le> length png_bytes"
  by (auto simp: find_insert_pos_cases split: if_splits)

lemma embed_layout:
  assumes "embed_aiip_chunk compress png_bytes data = Inr out"
    and "json_dumps data = Inr s"
    and "find_insert_pos png_bytes = Inr p"
  shows "out = take p png_bytes @ be32 (1 + length (compress (encode_utf8 s))) @ chunk_type
               @ (0x01 # compress (encode_utf8 s))
               @ be32 (unat (crc32 (chunk_type @ 0x01 # compress (encode_utf8 s))))
               @ drop p png_bytes"
    and "1 + length (compress (encode_utf8 s)) < 2 ^ 32"
  using assms
  by (auto simp: embed_aiip_chunk_def splice_chunk_def build_chunk_cases Let_def
           split: if_splits)

lemma slice_middle:
  "length a = i \<Longrightarrow> i + length b = j \<Longrightarrow> py_slice i j (a @ b @ c) = b"
  by (auto simp: py_slice_def)

lemma length_chunk_type: "length chunk_type = 4"
  by (simp add: chunk_type_def)

section \<open>The example, computed\<close>

lemma dumps_T: "json_dumps envelope_T = Inr json_T"
  by code_simp

lemma utf8_T: "encode_utf8 json_T = bytes_T"
  by (simp add: encode_utf8_def utf8_char_def json_T_def bytes_T_def)

lemma length_bytes_T: "length bytes_T = 95"
  by (simp add: bytes_T_def)

lemma adler32_T: "adler32 bytes_T = 0x27a11b7c"
  by (simp add: adler32_def bytes_T_def)

lemma store_T: "zlib_store bytes_T = stored_T"
  by (simp add: zlib_store_def stored_T_def length_bytes_T adler32_T be32_def)

lemma length_stored_T: "length stored_T = 106"
  by (simp add: stored_T_def length_bytes_T)

lemma crc32_T: "crc32 (chunk_type @ 0x01 # stored_T) = 0x9e2abf9a"
  by (simp add: crc32_def chunk_type_def stored_T_def bytes_T_def crc_byte_unfold
        crc_shift_numeral)

lemma build_chunk_T: "build_chunk stored_T = Inr chunk_T"
  by (simp add: build_chunk_cases length_stored_T crc32_T)
     (simp add: chunk_T_def be32_def chunk_type_def)

lemma insert_pos_1x1: "find_insert_pos png_1x1 = Inr 33"
  by (simp add: find_insert_pos_cases png_1x1_def)

lemma header_length_1x1: "unpack_I (py_slice 8 12 png_1x1) = Inr 13"
  by (simp add: unpack_I_def py_slice_def png_1x1_def)

lemma length_png_1x1: "length png_1x1 = 69"
  by (simp add: png_1x1_def)

lemma embed_T: "embed_aiip_chunk zlib_store png_1x1 envelope_T = Inr out_T"
  by (simp add: embed_aiip_chunk_def dumps_T utf8_T store_T splice_chunk_def build_chunk_T
        insert_pos_1x1 out_T_def)

lemma out_T_bytes:
  "out_T = [137, 80, 78, 71, 13, 10, 26, 10, 0, 0, 0, 13, 73, 72, 68, 82, 0, 0, 0, 1, 0, 0, 0, 1, 8, 2, 0, 0, 0, 144, 119, 83, 222, 0, 0, 0, 107, 97, 105, 105, 112, 1, 120, 1, 1, 95, 0, 160, 255, 123, 34, 118, 101, 114, 115, 105, 111, 110, 34, 58, 32, 34, 51, 46, 48, 34, 44, 32, 34, 99, 97, 110, 118, 97, 115, 34, 58, 32, 123, 34, 119, 105, 100, 116, 104, 34, 58, 32, 56, 48, 48, 44, 32, 34, 104, 101, 105, 103, 104, 116, 34, 58, 32, 54, 48, 48, 125, 44, 32, 34, 109, 101, 116, 97, 34, 58, 32, 123, 34, 116, 105, 116, 108, 101, 34, 58, 32, 34, 84, 34, 125, 44, 32, 34, 100, 97, 116, 97, 34, 58, 32, 123, 125, 125, 39, 161, 27, 124, 158, 42, 191, 154, 0, 0, 0, 12, 73, 68, 65, 84, 120, 156, 99, 96, 96, 96, 0, 0, 0, 4, 0, 1, 246, 23, 56, 85, 0, 0, 0, 0, 73, 69, 78, 68, 174, 66, 96, 130]"
  by (simp add: out_T_def png_1x1_def chunk_T_def stored_T_def bytes_T_def)

section \<open>The splice\<close>

text \<open>
  Claim C2. When the header chunk lies wholly inside the container, the output is the
  container's bytes up to offset 8 + 4 + 4 + header data length + 4, then the new chunk, then
  the container's remaining bytes; taking the chunk out again gives back the container,
  byte for byte.
\<close>

theorem splice_leaves_container_intact:
  assumes "embed_aiip_chunk compress png_bytes data = Inr out"
    and "json_dumps data = Inr s"
    and "build_chunk (compress (encode_utf8 s)) = Inr chunk"
    and "unpack_I (py_slice 8 12 png_bytes) = Inr ihdr_length"
    and "8 + 4 + 4 + ihdr_length + 4 \<le> length png_bytes"
  shows "out = take (8 + 4 + 4 + ihdr_length + 4) png_bytes @ chunk
               @ drop (8 + 4 + 4 + ihdr_length + 4) png_bytes
       \<and> take (8 + 4 + 4 + ihdr_length + 4) out
           @ drop (8 + 4 + 4 + ihdr_length + 4 + length chunk) out = png_bytes"
proof -
  define p where "p = 8 + 4 + 4 + ihdr_length + 4"
  have pos: "find_insert_pos png_bytes = Inr p"
    using assms(4) by (simp add: find_insert_pos_def p_def)
  have out: "out = take p png_bytes @ chunk @ drop p png_bytes"
    using assms(1,2,3) pos by (simp add: embed_aiip_chunk_def splice_chunk_def)
  have len: "length (take p png_bytes) = p"
    using assms(5) by (simp add: p_def)
  have before: "take p out = take p png_bytes"
    unfolding out using len by simp
  have after: "drop (p + length chunk) out = drop p png_bytes"
    unfolding out using len by simp
  have "take p out @ drop (p + length chunk) out = png_bytes"
    unfolding before after by (rule append_take_drop_id)
  with out show ?thesis unfolding p_def by blast
qed

theorem splice_leaves_container_intact_witness:
  "embed_aiip_chunk zlib_store png_1x1 envelope_T = Inr out_T
   \<and> json_dumps envelope_T = Inr json_T
   \<and> build_chunk (zlib_store (encode_utf8 json_T)) = Inr chunk_T
   \<and> unpack_I (py_slice 8 12 png_1x1) = Inr 13
   \<and> 8 + 4 + 4 + 13 + 4 \<le> length png_1x1
   \<and> out_T = take 33 png_1x1 @ chunk_T @ drop 33 png_1x1
   \<and> take 33 out_T @ drop (33 + length chunk_T) out_T = png_1x1"
proof -
  have b: "build_chunk (zlib_store (encode_utf8 json_T)) = Inr chunk_T"
    by (simp add: utf8_T store_T build_chunk_T)
  have l: "8 + 4 + 4 + 13 + 4 \<le> length png_1x1"
    by (simp add: length_png_1x1)
  show ?thesis
    using splice_leaves_container_intact [OF embed_T dumps_T b header_length_1x1 l]
      embed_T dumps_T b header_length_1x1 l
    by simp
qed

text \<open>
  Claim C5. The output is longer than the container by 8 bytes (length and type), 1 byte
  (method tag), the compressed size and 4 bytes (checksum), and it begins with the
  container's first 8 bytes.
\<close>

theorem embed_length_and_signature:
  assumes "embed_aiip_chunk compress png_bytes data = Inr out"
    and "json_dumps data = Inr s"
  shows "length out = length png_bytes + 8 + 1 + length (compress (encode_utf8 s)) + 4
       \<and> take 8 out = take 8 png_bytes"
proof -
  from assms obtain p where pos: "find_insert_pos png_bytes = Inr p"
    by (auto simp: embed_aiip_chunk_def splice_chunk_def split: sum.splits)
  have p: "20 \<le> p" "12 \<le> length png_bytes"
    using find_insert_pos_ge [OF pos] by simp_all
  note out = embed_layout(1) [OF assms pos]
  have "length out = length png_bytes + 8 + 1 + length (compress (encode_utf8 s)) + 4"
    by (subst out) (simp add: length_be32 length_chunk_type)
  moreover have "take 8 out = take 8 png_bytes"
    by (subst out) (use p in \<open>simp add: min_def\<close>)
  ultimately show ?thesis by simp
qed

theorem embed_length_and_signature_witness:
  "embed_aiip_chunk zlib_store png_1x1 envelope_T = Inr out_T
   \<and> json_dumps envelope_T = Inr json_T
   \<and> length out_T = length png_1x1 + 8 + 1 + length (zlib_store (encode_utf8 json_T)) + 4
   \<and> length out_T = 188
   \<and> take 8 out_T = take 8 png_1x1"
  using embed_length_and_signature [OF embed_T dumps_T] embed_T dumps_T
  by (simp add: length_png_1x1 utf8_T store_T length_stored_T)

section \<open>The fields of the injected chunk\<close>

text \<open>
  The chunk starts at the insertion offset, or at the end of the container when the
  container is shorter than that (Python clamps the slice bounds). From there the output
  holds the length field, the type, the data, the checksum and then the rest of the
  container.
\<close>

lemma embed_fields:
  assumes "embed_aiip_chunk compress png_bytes data = Inr out"
    and "json_dumps data = Inr s"
    and "find_insert_pos png_bytes = Inr p"
  shows "py_slice (min p (length png_bytes)) (min p (length png_bytes) + 4) out
           = be32 (1 + length (compress (encode_utf8 s)))"
    and "py_slice (min p (length png_bytes) + 4) (min p (length png_bytes) + 8) out
           = chunk_type"
    and "py_slice (min p (length png_bytes) + 8)
           (min p (length png_bytes) + 8 + (1 + length (compress (encode_utf8 s)))) out
           = 0x01 # compress (encode_utf8 s)"
    and "py_slice (min p (length png_bytes) + 8 + (1 + length (compress (encode_utf8 s))))
           (min p (length png_bytes) + 8 + (1 + length (compress (encode_utf8 s))) + 4) out
           = be32 (unat (crc32 (chunk_type @ 0x01 # compress (encode_utf8 s))))"
    and "drop (min p (length png_bytes) + 8 + (1 + length (compress (encode_utf8 s))) + 4) out
           = drop p png_bytes"
proof -
  define q where "q = min p (length png_bytes)"
  define z where "z = compress (encode_utf8 s)"
  define A where "A = take p png_bytes"
  define L where "L = be32 (1 + length z)"
  define D where "D = 0x01 # z"
  define K where "K = be32 (unat (crc32 (chunk_type @ D)))"
  define R where "R = drop p png_bytes"
  have out: "out = A @ L @ chunk_type @ D @ K @ R"
    using embed_layout(1) [OF assms] by (simp add: A_def L_def D_def K_def R_def z_def)
  have lA: "length A = q" by (simp add: A_def q_def min.commute)
  have lL: "length L = 4" by (simp add: L_def length_be32)
  have lT: "length chunk_type = 4" by (rule length_chunk_type)
  have lD: "length D = 1 + length z" by (simp add: D_def)
  have lK: "length K = 4" by (simp add: K_def length_be32)
  have 1: "py_slice q (q + 4) out = L"
    unfolding out by (rule slice_middle) (simp_all add: lA lL)
  have "py_slice (q + 4) (q + 8) ((A @ L) @ chunk_type @ (D @ K @ R)) = chunk_type"
    by (rule slice_middle) (simp_all add: lA lL lT)
  then have 2: "py_slice (q + 4) (q + 8) out = chunk_type"
    by (simp add: out)
  have "py_slice (q + 8) (q + 8 + (1 + length z)) ((A @ L @ chunk_type) @ D @ (K @ R)) = D"
    by (rule slice_middle) (simp_all add: lA lL lT lD)
  then have 3: "py_slice (q + 8) (q + 8 + (1 + length z)) out = D"
    by (simp add: out)
  have "py_slice (q + 8 + (1 + length z)) (q + 8 + (1 + length z) + 4)
          ((A @ L @ chunk_type @ D) @ K @ R) = K"
    by (rule slice_middle) (simp_all add: lA lL lT lD lK)
  then have 4: "py_slice (q + 8 + (1 + length z)) (q + 8 + (1 + length z) + 4) out = K"
    by (simp add: out)
  have "drop (length (A @ L @ chunk_type @ D @ K)) ((A @ L @ chunk_type @ D @ K) @ R) = R"
    by (rule append_eq_conv_conj [THEN iffD1, THEN conjunct2, symmetric]) simp
  then have 5: "drop (q + 8 + (1 + length z) + 4) out = R"
    by (simp add: out lA lL lT lD lK add.commute add.left_commute)
  show "py_slice (min p (length png_bytes)) (min p (length png_bytes) + 4) out
           = be32 (1 + length (compress (encode_utf8 s)))"
    using 1 by (simp add: q_def L_def z_def)
  show "py_slice (min p (length png_bytes) + 4) (min p (length png_bytes) + 8) out
           = chunk_type"
    using 2 by (simp add: q_def)
  show "py_slice (min p (length png_bytes) + 8)
           (min p (length png_bytes) + 8 + (1 + length (compress (encode_utf8 s)))) out
           = 0x01 # compress (encode_utf8 s)"
    using 3 by (simp add: q_def D_def z_def)
  show "py_slice (min p (length png_bytes) + 8 + (1 + length (compress (encode_utf8 s))))
           (min p (length png_bytes) + 8 + (1 + length (compress (encode_utf8 s))) + 4) out
           = be32 (unat (crc32 (chunk_type @ 0x01 # compress (encode_utf8 s))))"
    using 4 by (simp add: q_def K_def D_def z_def)
  show "drop (min p (length png_bytes) + 8 + (1 + length (compress (encode_utf8 s))) + 4) out
           = drop p png_bytes"
    using 5 by (simp add: q_def R_def z_def)
qed

lemma slice_head: "py_slice i j xs = y # ys \<Longrightarrow> xs ! i = y"
proof -
  assume a: "py_slice i j xs = y # ys"
  then have d: "drop i (take j xs) = y # ys" by (simp add: py_slice_def)
  then have "take j xs ! i = y" by (rule nth_via_drop)
  moreover have "i < j"
  proof (rule ccontr)
    assume "\<not> i < j"
    then have "drop i (take j xs) = []" by simp
    with d show False by simp
  qed
  ultimately show ?thesis by simp
qed

lemma corruption_detected:
  assumes out: "out = P @ M @ K @ R"
    and K: "K = be32 (unat (crc32 M))"
    and j: "j < length M"
    and pos: "length P = a" "a + length M = c" "c + 4 = d" "a + j = k"
    and b: "b \<noteq> out ! k"
  shows "pack_I (unat (crc32 (py_slice a c (out[k := b])))) \<noteq> Inr (py_slice c d (out[k := b]))"
proof -
  have lK: "length K = 4" by (simp add: K length_be32)
  have k: "k = length P + j" using pos by simp
  have upd: "out[k := b] = P @ M[j := b] @ K @ R"
    using j by (simp add: out k list_update_append)
  have nth: "out ! k = M ! j"
    using j by (simp add: out k nth_append)
  have m: "py_slice a c (out[k := b]) = M[j := b]"
    unfolding upd by (rule slice_middle) (use pos in simp_all)
  have "py_slice c d ((P @ M[j := b]) @ K @ R) = K"
    by (rule slice_middle) (use pos lK in auto)
  then have s: "py_slice c d (out[k := b]) = K"
    by (simp add: upd)
  have "crc32 (M[j := b]) \<noteq> crc32 M"
    using j b nth by (intro crc32_detects_update) simp_all
  then have "be32 (unat (crc32 (M[j := b]))) \<noteq> K"
    unfolding K by (blast dest: be32_unat_inj)
  then show ?thesis
    by (simp add: m s pack_I_crc)
qed

text \<open>
  Claim C3. The first four bytes of the injected chunk are the big-endian unsigned 32-bit
  value of 1 + the compressed length, and that many bytes (the method tag and the compressed
  bytes) lie between the type field and the checksum field.
\<close>

theorem length_field_counts_data:
  assumes "embed_aiip_chunk compress png_bytes data = Inr out"
    and "json_dumps data = Inr s"
    and "find_insert_pos png_bytes = Inr p"
  shows "let q = min p (length png_bytes); n = length (compress (encode_utf8 s)) in
           pack_I (1 + n) = Inr (py_slice q (q + 4) out)
         \<and> unpack_I (py_slice q (q + 4) out) = Inr (1 + n)
         \<and> py_slice (q + 4) (q + 8) out = chunk_type
         \<and> py_slice (q + 8) (q + 8 + (1 + n)) out = 0x01 # compress (encode_utf8 s)
         \<and> length (py_slice (q + 8) (q + 8 + (1 + n)) out) = 1 + n
         \<and> pack_I (unat (crc32 (chunk_type @ 0x01 # compress (encode_utf8 s))))
             = Inr (py_slice (q + 8 + (1 + n)) (q + 8 + (1 + n) + 4) out)"
proof -
  note f = embed_fields [OF assms]
  note n = embed_layout(2) [OF assms]
  have "pack_I (1 + length (compress (encode_utf8 s)))
        = Inr (be32 (1 + length (compress (encode_utf8 s))))"
    using n by (simp add: pack_I_def)
  then show ?thesis
    unfolding Let_def f using n by (simp add: unpack_be32 pack_I_crc)
qed

theorem length_field_counts_data_witness:
  "embed_aiip_chunk zlib_store png_1x1 envelope_T = Inr out_T
   \<and> json_dumps envelope_T = Inr json_T
   \<and> find_insert_pos png_1x1 = Inr 33
   \<and> py_slice 33 37 out_T = [0, 0, 0, 107]
   \<and> unpack_I (py_slice 33 37 out_T) = Inr (1 + 106)
   \<and> length (py_slice 41 148 out_T) = 107
   \<and> py_slice 148 152 out_T = [158, 42, 191, 154]"
proof -
  have k: "py_slice 33 37 out_T = [0, 0, 0, 107]" "py_slice 148 152 out_T = [158, 42, 191, 154]"
    by (simp_all add: out_T_bytes py_slice_def)
  show ?thesis
    using length_field_counts_data [OF embed_T dumps_T insert_pos_1x1] embed_T dumps_T
      insert_pos_1x1
    by (simp add: Let_def utf8_T store_T length_stored_T length_png_1x1 k)
qed

text \<open>
  Claim C4. The last four bytes of the injected chunk are the big-endian CRC-32 of the
  type bytes followed by the method tag and the compressed bytes; and if any one byte of
  the chunk's data is changed, the CRC computed again over type and data differs from the
  stored checksum.
\<close>

theorem checksum_valid_and_detects_corruption:
  assumes "embed_aiip_chunk compress png_bytes data = Inr out"
    and "json_dumps data = Inr s"
    and "find_insert_pos png_bytes = Inr p"
  shows "let q = min p (length png_bytes); n = length (compress (encode_utf8 s)) in
           pack_I (unat (crc32 (chunk_type @ 0x01 # compress (encode_utf8 s))))
             = Inr (py_slice (q + 9 + n) (q + 13 + n) out)
         \<and> py_slice (q + 4) (q + 9 + n) out = chunk_type @ 0x01 # compress (encode_utf8 s)
         \<and> drop (q + 13 + n) out = drop p png_bytes
         \<and> (\<forall>i b. i < 1 + n \<longrightarrow> b \<noteq> out ! (q + 8 + i) \<longrightarrow>
                pack_I (unat (crc32 (py_slice (q + 4) (q + 9 + n) (out[q + 8 + i := b]))))
                \<noteq> Inr (py_slice (q + 9 + n) (q + 13 + n) (out[q + 8 + i := b])))"
proof -
  define q where "q = min p (length png_bytes)"
  define z where "z = compress (encode_utf8 s)"
  define P where "P = take p png_bytes @ be32 (1 + length z)"
  define M where "M = chunk_type @ 0x01 # z"
  define K where "K = be32 (unat (crc32 M))"
  define R where "R = drop p png_bytes"
  have out: "out = P @ M @ K @ R"
    using embed_layout(1) [OF assms] by (simp add: P_def M_def K_def R_def z_def)
  have lP: "length P = q + 4"
    by (simp add: P_def q_def length_be32 min.commute)
  have lM: "length M = 5 + length z"
    by (simp add: M_def length_chunk_type)
  have lK: "length K = 4"
    by (simp add: K_def length_be32)
  have "py_slice (length P) (length P + length M) out = M"
    unfolding out by (rule slice_middle) simp_all
  then have m: "py_slice (q + 4) (q + 9 + length z) out = M"
    by (simp add: lP lM add.commute add.left_commute)
  have "py_slice (length P + length M) (length P + length M + 4) ((P @ M) @ K @ R) = K"
    by (rule slice_middle) (simp_all add: lK)
  then have k: "py_slice (q + 9 + length z) (q + 13 + length z) out = K"
    by (simp add: out lP lM add.commute add.left_commute)
  have "drop (length (P @ M @ K)) ((P @ M @ K) @ R) = R"
    by (rule append_eq_conv_conj [THEN iffD1, THEN conjunct2, symmetric]) simp
  then have r: "drop (q + 13 + length z) out = R"
    by (simp add: out lP lM lK add.commute add.left_commute)
  have c: "pack_I (unat (crc32 (py_slice (q + 4) (q + 9 + length z) (out[q + 8 + i := b]))))
           \<noteq> Inr (py_slice (q + 9 + length z) (q + 13 + length z) (out[q + 8 + i := b]))"
    if "i < 1 + length z" and "b \<noteq> out ! (q + 8 + i)" for i b
  proof -
    have j: "4 + i < length M" using that(1) by (simp add: lM)
    show ?thesis
      using out K_def j lP _ _ _ that(2)
      by (rule corruption_detected) (simp_all add: lM)
  qed
  show ?thesis
    unfolding Let_def q_def [symmetric] z_def [symmetric]
    using m k r c by (simp add: pack_I_crc M_def K_def R_def)
qed

theorem checksum_valid_and_detects_corruption_witness:
  "embed_aiip_chunk zlib_store png_1x1 envelope_T = Inr out_T
   \<and> json_dumps envelope_T = Inr json_T
   \<and> find_insert_pos png_1x1 = Inr 33
   \<and> py_slice 148 152 out_T = [158, 42, 191, 154]
   \<and> pack_I (unat (crc32 (py_slice 37 148 out_T))) = Inr [158, 42, 191, 154]
   \<and> (2 :: nat) < 1 + 106 \<and> 0 \<noteq> out_T ! (33 + 8 + 2)
   \<and> pack_I (unat (crc32 (py_slice 37 148 (out_T[43 := 0])))) \<noteq> Inr [158, 42, 191, 154]"
proof -
  note t = checksum_valid_and_detects_corruption [OF embed_T dumps_T insert_pos_1x1]
  have n: "length (zlib_store (encode_utf8 json_T)) = 106"
    by (simp add: utf8_T store_T length_stored_T)
  have b: "0 \<noteq> out_T ! (33 + 8 + 2)"
    by (simp add: out_T_bytes)
  have k: "py_slice 148 152 out_T = [158, 42, 191, 154]"
    by (simp add: out_T_bytes py_slice_def)
  have k': "py_slice 148 152 (out_T[43 := 0]) = [158, 42, 191, 154]"
    by (simp add: out_T_bytes py_slice_def)
  from t have 1: "pack_I (unat (crc32 (chunk_type @ 0x01 # zlib_store (encode_utf8 json_T))))
                  = Inr (py_slice 148 152 out_T)"
    and 2: "py_slice 37 148 out_T = chunk_type @ 0x01 # zlib_store (encode_utf8 json_T)"
    and 3: "\<And>i b. i < 107 \<Longrightarrow> b \<noteq> out_T ! (41 + i) \<Longrightarrow>
              pack_I (unat (crc32 (py_slice 37 148 (out_T[41 + i := b]))))
              \<noteq> Inr (py_slice 148 152 (out_T[41 + i := b]))"
    by (simp_all add: Let_def n length_png_1x1)
  from 3 [of 2 0] b
  have "pack_I (unat (crc32 (py_slice 37 148 (out_T[43 := 0])))) \<noteq> Inr [158, 42, 191, 154]"
    by (simp add: k')
  with 1 2 k b show ?thesis
    using embed_T dumps_T insert_pos_1x1 by simp
qed

text \<open>
  Claim C10. The type field of the injected chunk is the four ASCII bytes of \<open>aiip\<close>, all
  lower-case letters, and the first byte of its data is 0x01.
\<close>

theorem chunk_type_and_method_tag:
  assumes "embed_aiip_chunk compress png_bytes data = Inr out"
    and "json_dumps data = Inr s"
    and "find_insert_pos png_bytes = Inr p"
  shows "let q = min p (length png_bytes) in
           py_slice (q + 4) (q + 8) out = chunk_type
         \<and> chunk_type = map (\<lambda>c. of_nat (of_char c)) ''aiip''
         \<and> (\<forall>b \<in> set chunk_type. 0x61 \<le> b \<and> b \<le> 0x7A)
         \<and> out ! (q + 8) = 0x01"
proof -
  note f = embed_fields [OF assms]
  have "out ! (min p (length png_bytes) + 8) = 0x01"
    using f(3) by (rule slice_head)
  then show ?thesis
    unfolding Let_def f(2) by (simp add: chunk_type_def)
qed

theorem chunk_type_and_method_tag_witness:
  "embed_aiip_chunk zlib_store png_1x1 envelope_T = Inr out_T
   \<and> json_dumps envelope_T = Inr json_T
   \<and> find_insert_pos png_1x1 = Inr 33
   \<and> py_slice 37 41 out_T = [0x61, 0x69, 0x69, 0x70]
   \<and> out_T ! 41 = 0x01"
  using chunk_type_and_method_tag [OF embed_T dumps_T insert_pos_1x1] embed_T dumps_T
    insert_pos_1x1
  by (simp add: Let_def length_png_1x1 chunk_type_def)

section \<open>Failures of \<open>embed_aiip_chunk\<close>\<close>

lemma embed_cases:
  "embed_aiip_chunk compress png_bytes data =
     (case json_dumps data of
        Inl e \<Rightarrow> Inl e
      | Inr s \<Rightarrow>
          if 1 + length (compress (encode_utf8 s)) < 2 ^ 32 \<and> 12 \<le> length png_bytes
          then splice_chunk png_bytes (compress (encode_utf8 s))
          else Inl StructError)"
  by (simp add: embed_aiip_chunk_def splice_chunk_def build_chunk_cases
        find_insert_pos_cases Let_def split: sum.splits)

lemma int_repr_five: "int_repr 5 = ''5''"
  by code_simp

lemma store_five: "zlib_store (encode_utf8 ''5'') = [120, 1, 1, 1, 0, 254, 255, 53, 0, 54, 0, 54]"
  by (simp add: zlib_store_def encode_utf8_def utf8_char_def adler32_def be32_def)

lemma crc32_five:
  "crc32 (chunk_type @ 0x01 # [120, 1, 1, 1, 0, 254, 255, 53, 0, 54, 0, 54]) = 0x974a5057"
  by (simp add: crc32_def chunk_type_def crc_byte_unfold crc_shift_numeral)

text \<open>
  Claim C6, as the claim states it, fails: twelve zero bytes do not begin with the
  signature and are shorter than any header chunk, and the embedding succeeds on them,
  the chunk landing behind the twelve bytes.
\<close>

theorem malformed_container_counterexample:
  "take 8 ([0, 0, 0, 0, 0, 0, 0, 0, 0, 0, 0, 0 :: byte]) \<noteq> png_signature
   \<and> length ([0, 0, 0, 0, 0, 0, 0, 0, 0, 0, 0, 0 :: byte]) < 8 + 4 + 4 + 13 + 4
   \<and> embed_aiip_chunk zlib_store ([0, 0, 0, 0, 0, 0, 0, 0, 0, 0, 0, 0]) (PInt 5)
       = Inr ([0, 0, 0, 0, 0, 0, 0, 0, 0, 0, 0, 0]
              @ [0, 0, 0, 13, 97, 105, 105, 112, 1, 120, 1, 1, 1, 0, 254, 255, 53, 0, 54, 0, 54,
                 151, 74, 80, 87])"
proof -
  have "embed_aiip_chunk zlib_store ([0, 0, 0, 0, 0, 0, 0, 0, 0, 0, 0, 0]) (PInt 5)
        = Inr ([0, 0, 0, 0, 0, 0, 0, 0, 0, 0, 0, 0]
              @ [0, 0, 0, 13, 97, 105, 105, 112, 1, 120, 1, 1, 1, 0, 254, 255, 53, 0, 54, 0, 54,
                 151, 74, 80, 87])"
    by (simp add: embed_aiip_chunk_def int_repr_five store_five splice_chunk_def
          build_chunk_cases crc32_five find_insert_pos_cases)
       (simp add: be32_def chunk_type_def)
  then show ?thesis
    by (simp add: png_signature_def)
qed

text \<open>
  Claim C6, amended. There is no check of the signature and no error of its own for a
  malformed container. Once the metadata is serialized and the chunk data is shorter than
  \<open>2 ^ 32\<close> bytes, the embedding fails, with \<open>struct.error\<close>, exactly when the input has
  fewer than 12 bytes, so that the length of its first chunk cannot be read; on every
  input of 12 bytes or more it succeeds.
\<close>

theorem embed_fails_only_below_12_bytes:
  assumes "json_dumps data = Inr s"
    and "1 + length (compress (encode_utf8 s)) < 2 ^ 32"
  shows "(length png_bytes < 12 \<longrightarrow>
            embed_aiip_chunk compress png_bytes data = Inl StructError)
       \<and> (12 \<le> length png_bytes \<longrightarrow>
            (\<exists>out. embed_aiip_chunk compress png_bytes data = Inr out))"
  using assms
  by (auto simp: embed_cases splice_chunk_def build_chunk_cases find_insert_pos_cases)

theorem embed_fails_only_below_12_bytes_witness:
  "json_dumps envelope_T = Inr json_T
   \<and> 1 + length (zlib_store (encode_utf8 json_T)) < (2 :: nat) ^ 32
   \<and> length (take 11 png_1x1) < 12
   \<and> embed_aiip_chunk zlib_store (take 11 png_1x1) envelope_T = Inl StructError
   \<and> 12 \<le> length png_1x1
   \<and> (\<exists>out. embed_aiip_chunk zlib_store png_1x1 envelope_T = Inr out)"
proof -
  have n: "1 + length (zlib_store (encode_utf8 json_T)) < (2 :: nat) ^ 32"
    by (simp add: utf8_T store_T length_stored_T)
  show ?thesis
    using embed_fails_only_below_12_bytes
        [where compress = zlib_store and png_bytes = "take 11 png_1x1", OF dumps_T n]
      embed_fails_only_below_12_bytes
        [where compress = zlib_store and png_bytes = png_1x1, OF dumps_T n]
      dumps_T n
    by (simp add: length_png_1x1)
qed

section \<open>Failures of the serializer\<close>








section \<open>The fill colour of a region\<close>

text \<open>
  The two literals have 53-bit significands and lie within half a unit in the last place
  of 3/10 and of 7/10.
\<close>

lemma literal_0_3_nearest:
  "double_0_3 = (m, e) \<Longrightarrow> e = - 54 \<and> 2 ^ 52 \<le> m \<and> m < 2 ^ 53 \<and> \<bar>10 * m - 3 * 2 ^ 54\<bar> \<le> 5"
  by (auto simp: double_0_3_def)

lemma literal_0_7_nearest:
  "double_0_7 = (m, e) \<Longrightarrow> e = - 53 \<and> 2 ^ 52 \<le> m \<and> m < 2 ^ 53 \<and> \<bar>10 * m - 7 * 2 ^ 53\<bar> \<le> 5"
  by (auto simp: double_0_7_def)

lemma background_channels:
  "int_base16 (py_slice 1 3 BG_COLOR) = Inr 26"
  "int_base16 (py_slice 3 5 BG_COLOR) = Inr 58"
  "int_base16 (py_slice 5 7 BG_COLOR) = Inr 92"
  by code_simp+

lemma red_channels:
  "int_base16 (py_slice 1 3 ''#2ecc71'') = Inr 46"
  "int_base16 (py_slice 1 3 ''#f1c40f'') = Inr 241"
  "int_base16 (py_slice 1 3 ''#e74c3c'') = Inr 231"
  by code_simp+

lemma fill_low: "fill_color ''#2ecc71'' = Inr [32, 79, 52]"
  by code_simp

lemma fill_medium: "fill_color ''#f1c40f'' = Inr [90, 77, 22]"
  by code_simp

lemma fill_high: "fill_color ''#e74c3c'' = Inr [87, 41, 36]"
  by code_simp

lemma region_colors:
  "getitem REGION_COLORS ''low'' = Inr ''#2ecc71''"
  "getitem REGION_COLORS ''medium'' = Inr ''#f1c40f''"
  "getitem REGION_COLORS ''high'' = Inr ''#e74c3c''"
  by (simp_all add: getitem_def REGION_COLORS_def)

lemma region_levels:
  "r \<in> set (regions DATA) \<Longrightarrow> level r = ''low'' \<or> level r = ''medium'' \<or> level r = ''high''"
  by (auto simp: DATA_def)

lemma blend_floor:
  "\<lfloor>(of_int a * (3 / 10) + of_int b * (7 / 10) :: rat)\<rfloor> = (3 * a + 7 * b) div 10"
proof -
  have "(of_int a * (3 / 10) + of_int b * (7 / 10) :: rat) = of_int (3 * a + 7 * b) / of_int 10"
    by (simp add: field_simps)
  then show ?thesis
    by (simp only: floor_divide_of_int_eq)
qed

text \<open>
  Claim C8, as the claim states it, fails: for the second region, of level \<open>high\<close>, the
  green channel of the fill is 41, while the green channels of the two colours, 76 and 58,
  blend to 63.4.
\<close>

theorem region_fill_blend_counterexample:
  "level (regions DATA ! 1) = ''high''
   \<and> getitem REGION_COLORS ''high'' = Inr ''#e74c3c''
   \<and> fill_color ''#e74c3c'' = Inr [87, 41, 36]
   \<and> int_base16 (py_slice 3 5 ''#e74c3c'') = Inr 76
   \<and> int_base16 (py_slice 3 5 BG_COLOR) = Inr 58
   \<and> \<not> \<bar>41 - (76 * (3 / 10) + 58 * (7 / 10))\<bar> \<le> (1 / 2 :: rat)"
proof -
  have "int_base16 (py_slice 3 5 ''#e74c3c'') = Inr 76"
    by code_simp
  then show ?thesis
    by (simp add: DATA_def region_colors fill_high background_channels)
qed

text \<open>
  Claim C8, amended. For every region drawn, the red channel of the fill is the red
  channel of the severity colour times 0.3 plus the red channel of the background times
  0.7, computed in double precision, with the fraction dropped and not rounded to the
  nearest integer; and all three channels of the fill lie between 0 and 255.
\<close>

theorem region_fill_red_channel:
  assumes "r \<in> set (regions DATA)"
  shows "\<exists>color fg bg red green blue.
           getitem REGION_COLORS (level r) = Inr color
         \<and> int_base16 (py_slice 1 3 color) = Inr fg
         \<and> int_base16 (py_slice 1 3 BG_COLOR) = Inr bg
         \<and> fill_color color = Inr [red, green, blue]
         \<and> red = \<lfloor>(of_int fg * (3 / 10) + of_int bg * (7 / 10) :: rat)\<rfloor>
         \<and> (\<forall>c \<in> set [red, green, blue]. 0 \<le> c \<and> c \<le> 255)"
proof -
  consider "level r = ''low''" | "level r = ''medium''" | "level r = ''high''"
    using region_levels [OF assms] by blast
  then show ?thesis
  proof cases
    case 1
    then show ?thesis
      using blend_floor [of 46 26]
      by (simp add: region_colors red_channels background_channels fill_low
            del: One_nat_def)
  next
    case 2
    then show ?thesis
      using blend_floor [of 241 26]
      by (simp add: region_colors red_channels background_channels fill_medium
            del: One_nat_def)
  next
    case 3
    then show ?thesis
      using blend_floor [of 231 26]
      by (simp add: region_colors red_channels background_channels fill_high
            del: One_nat_def)
  qed
qed

theorem region_fill_red_channel_witness:
  "regions DATA ! 0 \<in> set (regions DATA)
   \<and> getitem REGION_COLORS (level (regions DATA ! 0)) = Inr ''#f1c40f''
   \<and> int_base16 (py_slice 1 3 ''#f1c40f'') = Inr 241
   \<and> fill_color ''#f1c40f'' = Inr [90, 77, 22]
   \<and> (241 * (3 / 10) + 26 * (7 / 10) :: rat) = 181 / 2
   \<and> (90 :: int) = \<lfloor>(241 * (3 / 10) + 26 * (7 / 10) :: rat)\<rfloor>"
proof -
  have m: "regions DATA ! 0 \<in> set (regions DATA)"
    by (simp add: DATA_def)
  have l: "level (regions DATA ! 0) = ''medium''"
    by (simp add: DATA_def)
  have "(90 :: int) = \<lfloor>(241 * (3 / 10) + 26 * (7 / 10) :: rat)\<rfloor>"
    using blend_floor [of 241 26] by simp
  then show ?thesis
    using region_fill_red_channel [OF m] m
    by (simp add: l region_colors red_channels fill_medium del: One_nat_def)
qed

section \<open>The renderer returns an image on every host\<close>

lemma traverse_map:
  "(\<And>x. x \<in> set xs \<Longrightarrow> f x = Inr (g x)) \<Longrightarrow> traverse f xs = Inr (map g xs)"
  by (induction xs) simp_all

lemma fill_color_of_level:
  assumes "getitem REGION_COLORS lvl = Inr color"
  shows "\<exists>fill. fill_color color = Inr fill"
proof -
  from assms have "color = ''#2ecc71'' \<or> color = ''#f1c40f'' \<or> color = ''#e74c3c''"
    by (auto simp: getitem_def REGION_COLORS_def split: if_splits)
  then show ?thesis
    using fill_low fill_medium fill_high by blast
qed

lemma countries_fonts:
  "c \<in> set (draw_countries font_small x y cs) \<Longrightarrow> call_fonts c = [font_small]"
  by (induction cs arbitrary: y) auto

lemma legend_fonts:
  "c \<in> set (draw_legend font_small x y items) \<Longrightarrow> f \<in> set (call_fonts c) \<Longrightarrow> f = font_small"
  by (induction font_small x y items rule: draw_legend.induct) auto

lemma draw_region_total:
  assumes "r \<in> set (regions DATA)"
  shows "\<exists>calls. draw_region font_medium font_small r = Inr calls
           \<and> (\<forall>c \<in> set calls. set (call_fonts c) \<subseteq> {font_medium, font_small})"
proof -
  obtain x1 y1 x2 y2 where b: "bounds r = (x1, y1, x2, y2)"
    by (cases "bounds r") auto
  obtain color where c: "getitem REGION_COLORS (level r) = Inr color"
    using region_levels [OF assms] region_colors by auto
  obtain fill where f: "fill_color color = Inr fill"
    using fill_color_of_level [OF c] by blast
  show ?thesis
    by (auto simp: draw_region_def b c f dest: countries_fonts)
qed

lemma legend_items_value:
  "legend_items = Inr [(''Low (10-15%)'', ''#2ecc71''), (''Medium (20-25%)'', ''#f1c40f''),
                       (''High (30-50%)'', ''#e74c3c'')]"
  by (simp add: legend_items_def region_colors)

lemma regions_drawn:
  "\<exists>region_calls. traverse (draw_region font_medium font_small) (regions DATA) = Inr region_calls
     \<and> (\<forall>c \<in> set (concat region_calls). set (call_fonts c) \<subseteq> {font_medium, font_small})"
proof -
  define g where
    "g r = (case draw_region font_medium font_small r of Inr calls \<Rightarrow> calls | Inl e \<Rightarrow> [])" for r
  have ok: "draw_region font_medium font_small r = Inr (g r)
            \<and> (\<forall>c \<in> set (g r). set (call_fonts c) \<subseteq> {font_medium, font_small})"
    if "r \<in> set (regions DATA)" for r
    using draw_region_total [OF that, of font_medium font_small] by (auto simp: g_def)
  have "traverse (draw_region font_medium font_small) (regions DATA) = Inr (map g (regions DATA))"
    by (rule traverse_map) (simp add: ok)
  moreover have "\<forall>c \<in> set (concat (map g (regions DATA))).
                   set (call_fonts c) \<subseteq> {font_medium, font_small}"
    using ok by auto
  ultimately show ?thesis by blast
qed

lemma create_image_with_fonts:
  assumes "load_fonts truetype = (font_large, font_medium, font_small)"
  shows "\<exists>img. create_aiip_image truetype = Inr img
           \<and> im_size img = (WIDTH, HEIGHT)
           \<and> (\<forall>c \<in> set (im_calls img).
                 set (call_fonts c) \<subseteq> {font_large, font_medium, font_small})"
proof -
  obtain region_calls where
    r: "traverse (draw_region font_medium font_small) (regions DATA) = Inr region_calls"
    and rf: "\<forall>c \<in> set (concat region_calls). set (call_fonts c) \<subseteq> {font_medium, font_small}"
    using regions_drawn by blast
  have lf: "f = font_small"
    if "c \<in> set (draw_legend font_small 100 (HEIGHT - 50)
                     [(''Low (10-15%)'', ''#2ecc71''), (''Medium (20-25%)'', ''#f1c40f''),
                      (''High (30-50%)'', ''#e74c3c'')])"
      and "f \<in> set (call_fonts c)" for c f
    using that by (rule legend_fonts)
  have "create_aiip_image truetype
        = Inr \<lparr>im_size = (WIDTH, HEIGHT), im_color = BG_COLOR,
               im_calls =
                 [Text (WIDTH div 2, 30) (title DATA) (ColorName ''white'') font_large ''mm'',
                  Text (WIDTH div 2, 55) ''Hover regions for details (in AIIP viewer)''
                    (ColorName ''#888888'') font_small ''mm'']
                 @ concat region_calls
                 @ draw_legend font_small 100 (HEIGHT - 50)
                     [(''Low (10-15%)'', ''#2ecc71''), (''Medium (20-25%)'', ''#f1c40f''),
                      (''High (30-50%)'', ''#e74c3c'')]
                 @ [Text (WIDTH div 2, HEIGHT - 15)
                      ''AIIP v3.0 - Annotated Interactive Image Protocol | github.com/aezizhu''
                      (ColorName ''#666666'') font_small ''mm'']\<rparr>"
    by (simp add: create_aiip_image_def assms r legend_items_value del: draw_legend.simps)
  moreover have "set (call_fonts c) \<subseteq> {font_large, font_medium, font_small}"
    if "c \<in> set ([Text (WIDTH div 2, 30) (title DATA) (ColorName ''white'') font_large ''mm'',
                  Text (WIDTH div 2, 55) ''Hover regions for details (in AIIP viewer)''
                    (ColorName ''#888888'') font_small ''mm'']
                 @ concat region_calls
                 @ draw_legend font_small 100 (HEIGHT - 50)
                     [(''Low (10-15%)'', ''#2ecc71''), (''Medium (20-25%)'', ''#f1c40f''),
                      (''High (30-50%)'', ''#e74c3c'')]
                 @ [Text (WIDTH div 2, HEIGHT - 15)
                      ''AIIP v3.0 - Annotated Interactive Image Protocol | github.com/aezizhu''
                      (ColorName ''#666666'') font_small ''mm''])" for c
  proof -
    from that consider
        "c = Text (WIDTH div 2, 30) (title DATA) (ColorName ''white'') font_large ''mm''"
      | "c = Text (WIDTH div 2, 55) ''Hover regions for details (in AIIP viewer)''
               (ColorName ''#888888'') font_small ''mm''"
      | "c \<in> set (concat region_calls)"
      | "c \<in> set (draw_legend font_small 100 (HEIGHT - 50)
                     [(''Low (10-15%)'', ''#2ecc71''), (''Medium (20-25%)'', ''#f1c40f''),
                      (''High (30-50%)'', ''#e74c3c'')])"
      | "c = Text (WIDTH div 2, HEIGHT - 15)
               ''AIIP v3.0 - Annotated Interactive Image Protocol | github.com/aezizhu''
               (ColorName ''#666666'') font_small ''mm''"
      by (auto simp del: draw_legend.simps)
    then show ?thesis
    proof cases
      case 3
      with rf show ?thesis by blast
    next
      case 4
      then show ?thesis using lf by blast
    qed simp_all
  qed
  ultimately show ?thesis by simp
qed

lemma load_fonts_fallback:
  assumes "truetype font_path 24 = Inl e \<or> truetype font_path 14 = Inl e
           \<or> truetype font_path 11 = Inl e"
  shows "load_fonts truetype = (DefaultFont, DefaultFont, DefaultFont)"
  using assms by (auto simp: load_fonts_def split: sum.splits)

text \<open>
  Claim C9. On every host the renderer returns an image, and the image has 800 times 600
  pixels. When any of the three attempts to load the preferred font fails, with whatever
  error, nothing is raised and the built-in font is used for all three sizes.
\<close>

theorem font_fallback_total:
  "\<exists>img. create_aiip_image truetype = Inr img
     \<and> im_size img = (800, 600)
     \<and> 0 < fst (im_size img) * snd (im_size img)
     \<and> ((\<exists>e. truetype font_path 24 = Inl e \<or> truetype font_path 14 = Inl e
              \<or> truetype font_path 11 = Inl e) \<longrightarrow>
          load_fonts truetype = (DefaultFont, DefaultFont, DefaultFont)
          \<and> (\<forall>c \<in> set (im_calls img). \<forall>f \<in> set (call_fonts c). f = DefaultFont))"
proof -
  obtain font_large font_medium font_small
    where l: "load_fonts truetype = (font_large, font_medium, font_small)"
    by (cases "load_fonts truetype") auto
  obtain img where i: "create_aiip_image truetype = Inr img"
    and s: "im_size img = (WIDTH, HEIGHT)"
    and f: "\<forall>c \<in> set (im_calls img).
              set (call_fonts c) \<subseteq> {font_large, font_medium, font_small}"
    using create_image_with_fonts [OF l] by blast
  have "load_fonts truetype = (DefaultFont, DefaultFont, DefaultFont)
        \<and> (\<forall>c \<in> set (im_calls img). \<forall>f \<in> set (call_fonts c). f = DefaultFont)"
    if "truetype font_path 24 = Inl e \<or> truetype font_path 14 = Inl e
        \<or> truetype font_path 11 = Inl e" for e
  proof -
    have d: "load_fonts truetype = (DefaultFont, DefaultFont, DefaultFont)"
      using that by (rule load_fonts_fallback)
    with l f show ?thesis by auto
  qed
  with i s show ?thesis
    by (auto simp: WIDTH_def HEIGHT_def)
qed

theorem font_fallback_total_witness:
  "(\<lambda>p s. Inl OSError :: error + font) font_path 24 = Inl OSError
   \<and> load_fonts (\<lambda>p s. Inl OSError) = (DefaultFont, DefaultFont, DefaultFont)
   \<and> (\<exists>img. create_aiip_image (\<lambda>p s. Inl OSError) = Inr img
          \<and> im_size img = (800, 600)
          \<and> (\<forall>c \<in> set (im_calls img). \<forall>f \<in> set (call_fonts c). f = DefaultFont))"
  using font_fallback_total [of "\<lambda>p s. Inl OSError"]
  by auto

section \<open>Locating the injected chunk\<close>







section \<open>Decoding what was encoded\<close>





section \<open>The stored-block compressor and its inflater\<close>


section \<open>Reading a string back\<close>









section \<open>Reading a number back\<close>




















section \<open>Reading the tokens of a value back\<close>










section \<open>Parsing the tokens of a value\<close>













section \<open>Serializing and deserializing\<close>

lemma loadable_serializable: "loadable v \<Longrightarrow> serializable v"
  by (induction v) (auto simp: Basic_BNFs.snds.simps)





lemma plain_loadable: "plain v \<Longrightarrow> loadable v"
proof (induction v)
  case (PFloat f)
  then show ?case by (cases f) simp_all
next
  case (PDict kvs)
  have "key_ok (fst kv) \<and> loadable (snd kv)" if "kv \<in> set kvs" for kv
  proof -
    have "snd kv \<in> Basic_BNFs.snds kv" by (cases kv) simp
    moreover have "plain (snd kv)" "\<exists>s. fst kv = PStr s"
      using PDict.prems that by auto
    ultimately show ?thesis
      using PDict.IH(2) [OF that] by auto
  qed
  then show ?case by simp
qed auto


section \<open>Extracting what was embedded\<close>









text \<open>
  The envelope that \<open>main\<close> embeds can be written and read, and does not come back as it
  was: the bounds of its regions are tuples.
\<close>

lemma program_envelope_changes:
  "loadable aiip_data \<and> json_norm aiip_data \<noteq> aiip_data"
  by (simp add: aiip_data_def py_of_dataset_def py_of_region_def py_of_country_def DATA_def
        dict_of_pairs_def key_string_def)




end
